theory Spec2Isabelle
  imports Main "HOL-Library.Sublist"
begin

section \<open>Go strings and the functions of package strings that the analyzer calls\<close>

text \<open>
  A Go string is a sequence of bytes, so it is a \<^typ>\<open>string\<close> here (a list of 8-bit
  characters). \<open>strings.TrimSpace\<close> removes every leading and every trailing white-space
  rune as \<open>unicode.IsSpace\<close> defines it; on a byte string a rune is white space exactly
  when the bytes at that place are the UTF-8 encoding of one of the code points below, so
  trimming is the repeated removal of one of these byte sequences from either end.
\<close>

definition space_encodings :: "string list" where
  "space_encodings =
     [[CHR 0x09], [CHR 0x0A], [CHR 0x0B], [CHR 0x0C], [CHR 0x0D], [CHR 0x20],
      [CHR 0xC2, CHR 0x85], [CHR 0xC2, CHR 0xA0],
      [CHR 0xE1, CHR 0x9A, CHR 0x80],
      [CHR 0xE2, CHR 0x80, CHR 0x80], [CHR 0xE2, CHR 0x80, CHR 0x81],
      [CHR 0xE2, CHR 0x80, CHR 0x82], [CHR 0xE2, CHR 0x80, CHR 0x83],
      [CHR 0xE2, CHR 0x80, CHR 0x84], [CHR 0xE2, CHR 0x80, CHR 0x85],
      [CHR 0xE2, CHR 0x80, CHR 0x86], [CHR 0xE2, CHR 0x80, CHR 0x87],
      [CHR 0xE2, CHR 0x80, CHR 0x88], [CHR 0xE2, CHR 0x80, CHR 0x89],
      [CHR 0xE2, CHR 0x80, CHR 0x8A],
      [CHR 0xE2, CHR 0x80, CHR 0xA8], [CHR 0xE2, CHR 0x80, CHR 0xA9],
      [CHR 0xE2, CHR 0x80, CHR 0xAF], [CHR 0xE2, CHR 0x81, CHR 0x9F],
      [CHR 0xE3, CHR 0x80, CHR 0x80]]"

definition leading_space :: "string \<Rightarrow> string option" where
  "leading_space s = find (\<lambda>e. prefix e s) space_encodings"

definition trailing_space :: "string \<Rightarrow> string option" where
  "trailing_space s = find (\<lambda>e. suffix e s) space_encodings"

function TrimLeftSpace :: "string \<Rightarrow> string" where
  "TrimLeftSpace s =
     (case leading_space s of
        None \<Rightarrow> s
      | Some e \<Rightarrow> TrimLeftSpace (drop (length e) s))"
  by pat_completeness auto
termination
proof (relation "measure length")
  fix s e
  assume "leading_space s = Some e"
  then have "e \<in> set space_encodings" and "prefix e s"
    unfolding leading_space_def find_Some_iff by (metis nth_mem)+
  moreover have "\<forall>x \<in> set space_encodings. x \<noteq> []"
    by (simp add: space_encodings_def)
  ultimately have "e \<noteq> []" and "s \<noteq> []"
    by auto
  then show "(drop (length e) s, s) \<in> measure length"
    by simp
qed simp

declare TrimLeftSpace.simps [simp del]

function TrimRightSpace :: "string \<Rightarrow> string" where
  "TrimRightSpace s =
     (case trailing_space s of
        None \<Rightarrow> s
      | Some e \<Rightarrow> TrimRightSpace (take (length s - length e) s))"
  by pat_completeness auto
termination
proof (relation "measure length")
  fix s e
  assume "trailing_space s = Some e"
  then have "e \<in> set space_encodings" and "suffix e s"
    unfolding trailing_space_def find_Some_iff by (metis nth_mem)+
  moreover have "\<forall>x \<in> set space_encodings. x \<noteq> []"
    by (simp add: space_encodings_def)
  ultimately have "e \<noteq> []" and "s \<noteq> []"
    by auto
  then show "(take (length s - length e) s, s) \<in> measure length"
    by simp
qed simp

declare TrimRightSpace.simps [simp del]


definition TrimSpace :: "string \<Rightarrow> string" where
  "TrimSpace s = TrimRightSpace (TrimLeftSpace s)"

definition HasPrefix :: "string \<Rightarrow> string \<Rightarrow> bool" where
  "HasPrefix s p \<longleftrightarrow> length s \<ge> length p \<and> take (length p) s = p"

definition TrimPrefix :: "string \<Rightarrow> string \<Rightarrow> string" where
  "TrimPrefix s p = (if HasPrefix s p then drop (length p) s else s)"

text \<open>Go compares strings byte by byte; \<open>x < y\<close> on strings is this order.\<close>

fun str_less :: "string \<Rightarrow> string \<Rightarrow> bool" where
  "str_less [] [] = False"
| "str_less [] (y # ys) = True"
| "str_less (x # xs) [] = False"
| "str_less (x # xs) (y # ys) =
     ((of_char x :: nat) < of_char y \<or> (x = y \<and> str_less xs ys))"


section \<open>Semantic versions: \<open>semver.Compare\<close>\<close>

text \<open>
  The comparator the analyzer imports from \<open>golang.org/x/mod/semver\<close>. A version string has
  the form \<open>vMAJOR[.MINOR[.PATCH[-PRERELEASE][+BUILD]]]\<close>; a string of any other form is
  invalid. \<open>Compare\<close> orders two valid versions by major, minor and patch number and then by
  prerelease; an invalid version is below every valid one and equal to every invalid one.
\<close>

record parsed =
  major :: string
  minor :: string
  patch :: string
  short :: string
  prerelease :: string
  build :: string

definition isDigit :: "char \<Rightarrow> bool" where
  "isDigit c \<longleftrightarrow> (48::nat) \<le> of_char c \<and> of_char c \<le> (57::nat)"

definition isIdentChar :: "char \<Rightarrow> bool" where
  "isIdentChar c \<longleftrightarrow>
     (65::nat) \<le> of_char c \<and> of_char c \<le> (90::nat) \<or>
     (97::nat) \<le> of_char c \<and> of_char c \<le> (122::nat) \<or>
     isDigit c \<or> c = CHR ''-''"

definition isNum :: "string \<Rightarrow> bool" where
  "isNum v \<longleftrightarrow> list_all isDigit v"

definition isBadNum :: "string \<Rightarrow> bool" where
  "isBadNum v \<longleftrightarrow> list_all isDigit v \<and> length v > 1 \<and> hd v = CHR ''0''"

definition parseInt :: "string \<Rightarrow> (string \<times> string) option" where
  "parseInt v =
     (case v of
        [] \<Rightarrow> None
      | c # _ \<Rightarrow>
          if \<not> isDigit c then None
          else let t = takeWhile isDigit v; rest = dropWhile isDigit v
               in if c = CHR ''0'' \<and> length t \<noteq> 1 then None else Some (t, rest))"

text \<open>The identifiers of a dot-separated body, an empty one included (\<open>a..b\<close> has three).\<close>

fun idents :: "string \<Rightarrow> string \<Rightarrow> string list" where
  "idents cur [] = [rev cur]"
| "idents cur (c # cs) =
     (if c = CHR ''.'' then rev cur # idents [] cs else idents (c # cur) cs)"

definition parsePrerelease :: "string \<Rightarrow> (string \<times> string) option" where
  "parsePrerelease v =
     (case v of
        [] \<Rightarrow> None
      | c # w \<Rightarrow>
          if c \<noteq> CHR ''-'' then None
          else let body = takeWhile (\<lambda>x. x \<noteq> CHR ''+'') w;
                   rest = dropWhile (\<lambda>x. x \<noteq> CHR ''+'') w
               in if list_all (\<lambda>x. isIdentChar x \<or> x = CHR ''.'') body \<and>
                     list_all (\<lambda>d. d \<noteq> [] \<and> \<not> isBadNum d) (idents [] body)
                  then Some (c # body, rest) else None)"

definition parseBuild :: "string \<Rightarrow> (string \<times> string) option" where
  "parseBuild v =
     (case v of
        [] \<Rightarrow> None
      | c # w \<Rightarrow>
          if c \<noteq> CHR ''+'' then None
          else if list_all (\<lambda>x. isIdentChar x \<or> x = CHR ''.'') w \<and>
                  list_all (\<lambda>d. d \<noteq> []) (idents [] w)
               then Some (v, []) else None)"

definition parse_tail :: "string \<Rightarrow> string \<Rightarrow> string \<Rightarrow> string \<Rightarrow> parsed option" where
  "parse_tail ma mi pa v =
     (case (if v \<noteq> [] \<and> hd v = CHR ''-'' then parsePrerelease v else Some ([], v)) of
        None \<Rightarrow> None
      | Some (pre, v1) \<Rightarrow>
          (case (if v1 \<noteq> [] \<and> hd v1 = CHR ''+'' then parseBuild v1 else Some ([], v1)) of
             None \<Rightarrow> None
           | Some (bld, v2) \<Rightarrow>
               if v2 \<noteq> [] then None
               else Some \<lparr>major = ma, minor = mi, patch = pa, short = [],
                          prerelease = pre, build = bld\<rparr>))"

definition parse :: "string \<Rightarrow> parsed option" where
  "parse v =
     (case v of
        [] \<Rightarrow> None
      | c # v0 \<Rightarrow>
          if c \<noteq> CHR ''v'' then None
          else
            (case parseInt v0 of
               None \<Rightarrow> None
             | Some (ma, v1) \<Rightarrow>
                 if v1 = [] then
                   Some \<lparr>major = ma, minor = ''0'', patch = ''0'', short = ''.0.0'',
                         prerelease = [], build = []\<rparr>
                 else if hd v1 \<noteq> CHR ''.'' then None
                 else
                   (case parseInt (tl v1) of
                      None \<Rightarrow> None
                    | Some (mi, v2) \<Rightarrow>
                        if v2 = [] then
                          Some \<lparr>major = ma, minor = mi, patch = ''0'', short = ''.0'',
                                prerelease = [], build = []\<rparr>
                        else if hd v2 \<noteq> CHR ''.'' then None
                        else
                          (case parseInt (tl v2) of
                             None \<Rightarrow> None
                           | Some (pa, v3) \<Rightarrow> parse_tail ma mi pa v3))))"

definition IsValid :: "string \<Rightarrow> bool" where
  "IsValid v \<longleftrightarrow> parse v \<noteq> None"

definition compareInt :: "string \<Rightarrow> string \<Rightarrow> int" where
  "compareInt x y =
     (if x = y then 0
      else if length x < length y then -1
      else if length x > length y then 1
      else if str_less x y then -1 else 1)"

definition nextIdent :: "string \<Rightarrow> string \<times> string" where
  "nextIdent x = (takeWhile (\<lambda>c. c \<noteq> CHR ''.'') x, dropWhile (\<lambda>c. c \<noteq> CHR ''.'') x)"

function comparePrerelease_loop :: "string \<Rightarrow> string \<Rightarrow> int" where
  "comparePrerelease_loop x y =
     (if x \<noteq> [] \<and> y \<noteq> [] then
        (let dx = fst (nextIdent (tl x)); x' = snd (nextIdent (tl x));
             dy = fst (nextIdent (tl y)); y' = snd (nextIdent (tl y))
         in if dx \<noteq> dy then
              (if isNum dx \<noteq> isNum dy then (if isNum dx then -1 else 1)
               else if isNum dx \<and> length dx < length dy then -1
               else if isNum dx \<and> length dx > length dy then 1
               else if str_less dx dy then -1 else 1)
            else comparePrerelease_loop x' y')
      else if x = [] then -1 else 1)"
  by pat_completeness auto
termination
proof (relation "measure (\<lambda>(x, y). length x)")
  fix x y x' :: string
  assume "x \<noteq> [] \<and> y \<noteq> []" and "x' = snd (nextIdent (tl x))"
  moreover have "length (snd (nextIdent (tl x))) \<le> length (tl x)"
    unfolding nextIdent_def snd_conv by (rule length_dropWhile_le)
  ultimately show "((x', y'), (x, y)) \<in> measure (\<lambda>(x, y). length x)" for y'
    by (cases x) auto
qed simp

declare comparePrerelease_loop.simps [simp del]

definition comparePrerelease :: "string \<Rightarrow> string \<Rightarrow> int" where
  "comparePrerelease x y =
     (if x = y then 0
      else if x = [] then 1
      else if y = [] then -1
      else comparePrerelease_loop x y)"

definition Compare :: "string \<Rightarrow> string \<Rightarrow> int" where
  "Compare v w =
     (case (parse v, parse w) of
        (None, None) \<Rightarrow> 0
      | (None, Some pw) \<Rightarrow> -1
      | (Some pv, None) \<Rightarrow> 1
      | (Some pv, Some pw) \<Rightarrow>
          if compareInt (major pv) (major pw) \<noteq> 0 then compareInt (major pv) (major pw)
          else if compareInt (minor pv) (minor pw) \<noteq> 0 then compareInt (minor pv) (minor pw)
          else if compareInt (patch pv) (patch pw) \<noteq> 0 then compareInt (patch pv) (patch pw)
          else comparePrerelease (prerelease pv) (prerelease pw))"


section \<open>The parsed go.mod file\<close>

text \<open>
  The part of \<open>modfile.File\<close> that the analyzer reads. A pointer that may be \<open>nil\<close> is an
  \<^typ>\<open>'a option\<close>: the file itself, its module declaration, the declaration's syntax
  line, and each entry of the slice of retract directives. The positions and tokens of the
  syntax tree are never read and are left out.
\<close>

record modfile_Comment =
  Token :: string

record modfile_Line =
  Before :: "modfile_Comment list"
  Suffix :: "modfile_Comment list"
  After :: "modfile_Comment list"

record modfile_Module =
  Syntax :: "modfile_Line option"

record modfile_Retract =
  Low :: string
  High :: string
  Rationale :: string

record modfile_File =
  Module :: "modfile_Module option"
  Retract :: "modfile_Retract option list"

datatype panic = NilPointerDereference


section \<open>The analyzer: \<open>isDeprecated\<close>, \<open>isRetracted\<close>, \<open>PopulateModule\<close>\<close>

definition deprecated_prefix :: string where
  "deprecated_prefix = ''Deprecated:''"

fun isDeprecated_loop :: "modfile_Comment list \<Rightarrow> bool \<times> string" where
  "isDeprecated_loop [] = (False, [])"
| "isDeprecated_loop (comment # rest) =
     (let text = TrimSpace (TrimPrefix (Token comment) ''//'')
      in if HasPrefix text deprecated_prefix
         then (True, TrimSpace (drop (length deprecated_prefix) text))
         else isDeprecated_loop rest)"

definition isDeprecated :: "modfile_File option \<Rightarrow> panic + bool \<times> string" where
  "isDeprecated mf =
     (case mf of
        None \<Rightarrow> Inl NilPointerDereference
      | Some f \<Rightarrow>
          (case Module f of
             None \<Rightarrow> Inr (False, [])
           | Some md \<Rightarrow>
               (case Syntax md of
                  None \<Rightarrow> Inl NilPointerDereference
                | Some ln \<Rightarrow> Inr (isDeprecated_loop (Before ln @ Suffix ln)))))"

definition in_interval :: "string \<Rightarrow> modfile_Retract \<Rightarrow> bool" where
  "in_interval resolvedVersion r \<longleftrightarrow>
     Compare resolvedVersion (Low r) \<ge> 0 \<and> Compare resolvedVersion (High r) \<le> 0"

fun isRetracted_loop :: "modfile_Retract option list \<Rightarrow> string \<Rightarrow> panic + bool \<times> string" where
  "isRetracted_loop [] resolvedVersion = Inr (False, [])"
| "isRetracted_loop (None # rest) resolvedVersion = Inl NilPointerDereference"
| "isRetracted_loop (Some r # rest) resolvedVersion =
     (if in_interval resolvedVersion r then Inr (True, Rationale r)
      else isRetracted_loop rest resolvedVersion)"

definition isRetracted :: "modfile_File option \<Rightarrow> string \<Rightarrow> panic + bool \<times> string" where
  "isRetracted mf resolvedVersion =
     (case mf of
        None \<Rightarrow> Inl NilPointerDereference
      | Some f \<Rightarrow> isRetracted_loop (Retract f) resolvedVersion)"

text \<open>
  \<open>RawLatestInfo\<close> is declared in the analyzer's file. Of \<open>internal.Module\<close> the analyzer
  reads \<open>Version\<close> and writes the four lifecycle fields; every other field of the module is
  carried by the record's extension \<open>more\<close>.
\<close>

record RawLatestInfo =
  ModulePath :: string
  Version :: string
  GoModFile :: "modfile_File option"

record Module =
  Version :: string
  Deprecated :: bool
  DeprecationComment :: string
  Retracted :: bool
  RetractionRationale :: string

text \<open>
  \<open>PopulateModule\<close> assigns through the pointer \<open>m\<close>, so the model returns the module as the
  call leaves it, together with the panic that ended the call, if one did. The first
  assignment is complete before \<open>isRetracted\<close> runs.
\<close>

definition PopulateModule ::
  "RawLatestInfo \<Rightarrow> 'a Module_scheme \<Rightarrow> panic option \<times> 'a Module_scheme" where
  "PopulateModule r m =
     (case isDeprecated (GoModFile r) of
        Inl p \<Rightarrow> (Some p, m)
      | Inr (d, dc) \<Rightarrow>
          (let m1 = m\<lparr>Deprecated := d, DeprecationComment := dc\<rparr>
           in case isRetracted (GoModFile r) (Module.Version m1) of
                Inl p \<Rightarrow> (Some p, m1)
              | Inr (rt, rr) \<Rightarrow> (None, m1\<lparr>Retracted := rt, RetractionRationale := rr\<rparr>)))"


text \<open>
  What \<open>modfile.Parse\<close> guarantees of the file it returns: a module declaration comes with
  its syntax line, and no entry of the retract slice is \<open>nil\<close>.
\<close>

definition wf_File :: "modfile_File \<Rightarrow> bool" where
  "wf_File f \<longleftrightarrow>
     (case Module f of None \<Rightarrow> True | Some md \<Rightarrow> Syntax md \<noteq> None) \<and>
     list_all (\<lambda>r. r \<noteq> None) (Retract f)"

text \<open>The four lifecycle fields of a module, in the order \<open>PopulateModule\<close> assigns them.\<close>

definition lifecycle :: "'a Module_scheme \<Rightarrow> bool \<times> string \<times> bool \<times> string" where
  "lifecycle m = (Deprecated m, DeprecationComment m, Retracted m, RetractionRationale m)"


section \<open>The ingestion pipeline\<close>

text \<open>
  Modelled from the spec: the error kinds of the pipeline (spec section 7). The repository's
  \<open>derrors\<close> package, which declares \<open>DBModuleInsertInvalid\<close>, is not among the sources;
  \<open>ValidationRejected\<close> is that "insert invalid" value.
\<close>

datatype error = FetchFailed | ExtractionFailed | ValidationRejected | StorageUnavailable

text \<open>
  Modelled from the spec: the licence metadata of a unit (spec section 3), with the two
  attributes the test compares; the repository's \<open>licenses.Metadata\<close> is not among the
  sources. In the unit record below a commit time that is missing is \<open>None\<close>.
\<close>

record LicenseMetadata =
  license_types :: "string list"
  license_file :: string

text \<open>
  Modelled from the spec: the optional readme of a unit, a path and the contents (spec
  section 3); the repository's \<open>internal.Readme\<close> is not among the sources.
\<close>

record Readme =
  readme_path :: string
  readme_contents :: string

text \<open>
  Modelled from the spec: the optional documentation of a unit, a synopsis, the rendered
  body and the target platform pair (spec section 3); the repository's
  \<open>internal.Documentation\<close> is not among the sources.
\<close>

record Documentation =
  synopsis :: string
  body :: string
  goos :: string
  goarch :: string

text \<open>
  Modelled from the spec: the unit record itself (spec section 3); the repository's
  \<open>internal.Unit\<close> is not among the sources.
\<close>

record UnitRecord =
  unit_path :: string
  unit_name :: string
  commit_time :: "nat option"
  redistributable :: bool
  source_location :: string
  licenses :: "LicenseMetadata list"
  readme :: "Readme option"
  documentation :: "Documentation option"

text \<open>
  Modelled from the spec: the record stored for a key is the module-level record, which
  carries the lifecycle fields, together with the module's units (spec sections 3 and 4.2).
  The store maps a key (module path, version) to that record; an absent key has none.
\<close>

record StoredModule = Module +
  Units :: "UnitRecord list"

text \<open>
  Modelled from the spec: the identity key of a module version, module path and version
  (spec section 3).
\<close>

type_synonym key = "string \<times> string"

text \<open>
  Modelled from the spec: the state of the version store, a record for each stored key and
  none for an absent one (spec section 4.3); the repository's store is not among the sources.
\<close>

type_synonym store = "key \<rightharpoonup> StoredModule"

text \<open>
  Modelled from the spec: the part of the validity rule that the spec leaves open (section
  9), a further ground for rejection that sees the stored and the candidate unit set. The
  repository's check is not among the sources.
\<close>

type_synonym policy = "UnitRecord list \<Rightarrow> UnitRecord list \<Rightarrow> bool"

text \<open>
  Modelled from the spec: a mandatory field (module path, version, commit time) is missing
  (spec section 4.3); the repository's check is not among the sources.
\<close>

definition missing_mandatory :: "key \<Rightarrow> UnitRecord \<Rightarrow> bool" where
  "missing_mandatory k u \<longleftrightarrow> fst k = [] \<or> snd k = [] \<or> commit_time u = None"

text \<open>
  Modelled from the spec: the validity rule of the store (spec section 4.3), whose code is
  not among the sources. A candidate set is degenerate when it is empty, when a mandatory
  field is missing, or on the further ground \<open>further\<close>.
\<close>

definition degenerate :: "policy \<Rightarrow> key \<Rightarrow> UnitRecord list \<Rightarrow> UnitRecord list \<Rightarrow> bool" where
  "degenerate further k prior cand \<longleftrightarrow>
     cand = [] \<or> list_ex (missing_mandatory k) cand \<or> further prior cand"

text \<open>
  Modelled from the spec: \<open>Replace(key, candidateUnits)\<close> of the store (spec section 4.3).
  The repository's store (package \<open>postgres\<close>) is not among the sources. A candidate that is
  degenerate relative to a stored, non-empty key is rejected and the store is returned as it
  was; any other candidate becomes the key's record as a whole.
\<close>

definition Replace :: "policy \<Rightarrow> key \<Rightarrow> StoredModule \<Rightarrow> store \<Rightarrow> (error + unit) \<times> store" where
  "Replace further k cand st =
     (case st k of
        None \<Rightarrow> (Inr (), st(k \<mapsto> cand))
      | Some prior \<Rightarrow>
          if Units prior \<noteq> [] \<and> degenerate further k (Units prior) (Units cand)
          then (Inl ValidationRejected, st)
          else (Inr (), st(k \<mapsto> cand)))"

text \<open>
  Modelled from the spec: the units a reader of the store sees for a key (spec section
  4.3); the repository's store is not among the sources.
\<close>

definition visible :: "store \<Rightarrow> key \<Rightarrow> UnitRecord set" where
  "visible st k = (case st k of None \<Rightarrow> {} | Some m \<Rightarrow> set (Units m))"

text \<open>
  Modelled from the spec: the unit a reader finds at a path under a key, as the test reads
  it with \<open>GetUnitMeta\<close> and \<open>GetUnit\<close>, which are not among the sources.
\<close>

definition GetUnit :: "store \<Rightarrow> key \<Rightarrow> string \<Rightarrow> UnitRecord option" where
  "GetUnit st k p =
     (case st k of None \<Rightarrow> None | Some m \<Rightarrow> find (\<lambda>u. unit_path u = p) (Units m))"

text \<open>
  Modelled from the spec: the candidate record of the requested version before the
  analyzer has run on it (spec section 4.2, steps 2 and 3); the repository's code that
  builds it is not among the sources.
\<close>

definition candidate :: "key \<Rightarrow> UnitRecord list \<Rightarrow> StoredModule" where
  "candidate k units =
     \<lparr>Module.Version = snd k, Deprecated = False, DeprecationComment = [],
      Retracted = False, RetractionRationale = [], Units = units\<rparr>"

text \<open>
  Modelled from the spec: \<open>Ingest(modulePath, version, fetcher, storeHandle)\<close> of the
  orchestrator (spec section 4.2). The repository's \<open>worker.FetchAndUpdateState\<close> is not among
  the sources. The fetcher and the extractor are the external collaborators; a failed fetch
  is \<open>FetchFailed\<close>, a failed extraction is \<open>ExtractionFailed\<close>, and nothing is written in
  either case. The analyzer is the repository's \<open>PopulateModule\<close>, run on the candidate
  record of the requested version; a manifest on which it cannot run is structurally
  invalid. The store's answer is passed on unchanged.
\<close>

definition Ingest ::
  "policy \<Rightarrow> (key \<Rightarrow> 'raw option) \<Rightarrow> ('raw \<Rightarrow> (UnitRecord list \<times> RawLatestInfo) option) \<Rightarrow>
   key \<Rightarrow> store \<Rightarrow> (error + StoredModule) \<times> store" where
  "Ingest further fetcher extractor k st =
     (case fetcher k of
        None \<Rightarrow> (Inl FetchFailed, st)
      | Some raw \<Rightarrow>
          (case extractor raw of
             None \<Rightarrow> (Inl ExtractionFailed, st)
           | Some (units, info) \<Rightarrow>
               (case PopulateModule info (candidate k units) of
                  (Some p, m) \<Rightarrow> (Inl ExtractionFailed, st)
                | (None, m) \<Rightarrow>
                    (case Replace further k m st of
                       (Inl e, st') \<Rightarrow> (Inl e, st')
                     | (Inr u, st') \<Rightarrow> (Inr m, st')))))"

text \<open>
  Modelled from the spec: the one rejection the spec reports of the source (section 9,
  re-ingesting with fewer packages than were stored), as a further ground: a candidate is
  rejected when a stored unit path is no longer among its paths. The repository's check is
  not among the sources; under this ground the scenario of \<open>TestReFetch\<close> runs as the test
  expects.
\<close>

definition no_unit_dropped :: policy where
  "no_unit_dropped prior cand \<longleftrightarrow>
     \<not> list_all (\<lambda>u. unit_path u \<in> set (map unit_path cand)) prior"


text \<open>
  Sample data in the shape of \<open>TestReFetch\<close>: a key, a manifest that neither deprecates
  nor retracts, the package \<open>foo\<close> as first fetched, \<open>foo\<close> with a changed readme, and
  the package \<open>bar\<close> with the readme, licence and documentation the test expects of it.
\<close>

definition sample_key :: key where
  "sample_key = (''example.com/module'', ''v1.0.0'')"

definition sample_info :: RawLatestInfo where
  "sample_info =
     \<lparr>ModulePath = ''example.com/module'', Version = ''v1.0.0'',
      GoModFile = Some \<lparr>Module = None, Retract = []\<rparr>\<rparr>"

definition foo_unit :: UnitRecord where
  "foo_unit =
     \<lparr>unit_path = ''example.com/module/foo'', unit_name = ''foo'',
      commit_time = Some 1548806400, redistributable = True,
      source_location = ''https://example.com/module'',
      licenses = [\<lparr>license_types = [''MIT''], license_file = ''LICENSE''\<rparr>],
      readme = Some \<lparr>readme_path = ''README.md'', readme_contents = ''This is a readme''\<rparr>,
      documentation = Some \<lparr>synopsis = ''Package foo'', body = ''const Foo = 42'',
                              goos = ''linux'', goarch = ''amd64''\<rparr>\<rparr>"

definition foo_unit_refreshed :: UnitRecord where
  "foo_unit_refreshed =
     foo_unit\<lparr>readme :=
       Some \<lparr>readme_path = ''README.md'', readme_contents = ''This is a new readme''\<rparr>\<rparr>"

definition bar_unit :: UnitRecord where
  "bar_unit =
     \<lparr>unit_path = ''example.com/module/bar'', unit_name = ''bar'',
      commit_time = Some 1548806400, redistributable = True,
      source_location = ''https://example.com/module'',
      licenses = [\<lparr>license_types = [''MIT''], license_file = ''LICENSE''\<rparr>],
      readme = Some \<lparr>readme_path = ''README.md'', readme_contents = ''This is a readme''\<rparr>,
      documentation = Some \<lparr>synopsis = ''Package bar'', body = ''const Bar = 21'',
                              goos = ''linux'', goarch = ''amd64''\<rparr>\<rparr>"

text \<open>
  The fake proxy of the test serves one set of files; here the fetcher hands over the
  units a module contains and the extractor pairs them with the sample manifest.
\<close>

definition sample_fetcher :: "UnitRecord list \<Rightarrow> key \<Rightarrow> UnitRecord list option" where
  "sample_fetcher units k = Some units"

definition sample_extractor :: "UnitRecord list \<Rightarrow> (UnitRecord list \<times> RawLatestInfo) option" where
  "sample_extractor raw = Some (raw, sample_info)"


section \<open>Properties of the comparator\<close>

lemma of_char_nat_inj: "(of_char x :: nat) = of_char y \<Longrightarrow> x = y"
  by (metis char_of_char)

lemma str_less_total: "x \<noteq> y \<Longrightarrow> str_less x y \<longleftrightarrow> \<not> str_less y x"
proof (induction x y rule: str_less.induct)
  case (4 x xs y ys)
  show ?case
  proof (cases "x = y")
    case True
    with 4 show ?thesis by simp
  next
    case False
    then have "(of_char x :: nat) \<noteq> of_char y"
      using of_char_nat_inj by blast
    then show ?thesis
      using False by (simp add: less_le not_le)
  qed
qed simp_all

lemma compareInt_antisym: "compareInt x y = - compareInt y x"
  using str_less_total [of x y] by (auto simp: compareInt_def)

lemma nextIdent_split: "fst (nextIdent x) @ snd (nextIdent x) = x"
  by (simp add: nextIdent_def)

lemma nextIdent_rest: "snd (nextIdent x) = [] \<or> hd (snd (nextIdent x)) = CHR ''.''"
proof (cases "dropWhile (\<lambda>c. c \<noteq> CHR ''.'') x = []")
  case True
  then show ?thesis by (simp add: nextIdent_def)
next
  case False
  from hd_dropWhile [OF this] show ?thesis by (simp add: nextIdent_def)
qed


lemma comparePrerelease_loop_antisym:
  "x \<noteq> y \<Longrightarrow> (x \<noteq> [] \<Longrightarrow> y \<noteq> [] \<Longrightarrow> hd x = hd y) \<Longrightarrow>
   comparePrerelease_loop x y = - comparePrerelease_loop y x"
proof (induction x y rule: comparePrerelease_loop.induct)
  case (1 x y)
  show ?case
  proof (cases "x \<noteq> [] \<and> y \<noteq> []")
    case False
    with "1.prems" show ?thesis
      by (auto simp: comparePrerelease_loop.simps [of x y] comparePrerelease_loop.simps [of y x])
  next
    case True
    define dx where "dx = fst (nextIdent (tl x))"
    define x' where "x' = snd (nextIdent (tl x))"
    define dy where "dy = fst (nextIdent (tl y))"
    define y' where "y' = snd (nextIdent (tl y))"
    have tlx: "tl x = dx @ x'" and tly: "tl y = dy @ y'"
      by (simp_all add: dx_def x'_def dy_def y'_def nextIdent_split)
    show ?thesis
    proof (cases "dx = dy")
      case False
      have sl: "str_less dx dy \<longleftrightarrow> \<not> str_less dy dx"
        using False by (rule str_less_total)
      have "comparePrerelease_loop x y =
          (if isNum dx \<noteq> isNum dy then (if isNum dx then -1 else 1)
               else if isNum dx \<and> length dx < length dy then -1
               else if isNum dx \<and> length dx > length dy then 1
               else if str_less dx dy then -1 else 1)"
        using True False by (subst comparePrerelease_loop.simps) (simp add: Let_def dx_def dy_def)
      moreover have "comparePrerelease_loop y x =
          (if isNum dy \<noteq> isNum dx then (if isNum dy then -1 else 1)
               else if isNum dy \<and> length dy < length dx then -1
               else if isNum dy \<and> length dy > length dx then 1
               else if str_less dy dx then -1 else 1)"
        using True False by (subst comparePrerelease_loop.simps) (simp add: Let_def dx_def dy_def)
      ultimately show ?thesis using sl by auto
    next
      case same: True
      have hdxy: "hd x = hd y" using True "1.prems"(2) by simp
      have "x = hd x # tl x" "y = hd y # tl y" using True by simp_all
      with hdxy "1.prems"(1) have "tl x \<noteq> tl y" by metis
      with tlx tly same have ne: "x' \<noteq> y'" by simp
      have hd': "x' \<noteq> [] \<Longrightarrow> y' \<noteq> [] \<Longrightarrow> hd x' = hd y'"
        using nextIdent_rest [of "tl x"] nextIdent_rest [of "tl y"]
        by (simp add: x'_def y'_def)
      have IH: "comparePrerelease_loop x' y' = - comparePrerelease_loop y' x'"
        using "1.IH" [OF True dx_def x'_def dy_def y'_def _ ne hd'] same by simp
      have "comparePrerelease_loop x y = comparePrerelease_loop x' y'"
        using True same
        by (subst comparePrerelease_loop.simps) (simp add: Let_def dx_def dy_def x'_def y'_def)
      moreover have "comparePrerelease_loop y x = comparePrerelease_loop y' x'"
        using True same
        by (subst comparePrerelease_loop.simps) (simp add: Let_def dx_def dy_def x'_def y'_def)
      ultimately show ?thesis using IH by simp
    qed
  qed
qed

lemma parsePrerelease_shape:
  "parsePrerelease v = Some (pre, rest) \<Longrightarrow> pre \<noteq> [] \<and> hd pre = CHR ''-''"
  by (auto simp: parsePrerelease_def Let_def split: list.splits if_splits)

lemma parse_tail_shape:
  "parse_tail ma mi pa v = Some p \<Longrightarrow> prerelease p = [] \<or> hd (prerelease p) = CHR ''-''"
  by (auto simp: parse_tail_def split: if_splits option.splits dest!: parsePrerelease_shape)

lemma parse_shape:
  "parse v = Some p \<Longrightarrow> prerelease p = [] \<or> hd (prerelease p) = CHR ''-''"
  by (auto simp: parse_def split: list.splits if_splits option.splits dest!: parse_tail_shape)

lemma comparePrerelease_antisym:
  assumes "x = [] \<or> hd x = CHR ''-''" and "y = [] \<or> hd y = CHR ''-''"
  shows "comparePrerelease x y = - comparePrerelease y x"
proof (cases "x = y \<or> x = [] \<or> y = []")
  case True
  then show ?thesis by (auto simp: comparePrerelease_def)
next
  case False
  with assms have "comparePrerelease_loop x y = - comparePrerelease_loop y x"
    by (intro comparePrerelease_loop_antisym) auto
  with False show ?thesis by (auto simp: comparePrerelease_def)
qed

lemma Compare_antisym: "Compare v w = - Compare w v"
proof (cases "parse v")
  case None
  then show ?thesis by (cases "parse w") (simp_all add: Compare_def)
next
  case (Some pv)
  note pv = this
  show ?thesis
  proof (cases "parse w")
    case None
    with pv show ?thesis by (simp add: Compare_def)
  next
    case (Some pw)
    have "comparePrerelease (prerelease pv) (prerelease pw) =
            - comparePrerelease (prerelease pw) (prerelease pv)"
      using parse_shape [OF pv] parse_shape [OF Some] by (rule comparePrerelease_antisym)
    with pv Some show ?thesis
      using compareInt_antisym [of "major pv" "major pw"]
        compareInt_antisym [of "minor pv" "minor pw"]
        compareInt_antisym [of "patch pv" "patch pw"]
      by (simp add: Compare_def)
  qed
qed

lemma Compare_refl: "Compare v v = 0"
  by (cases "parse v") (simp_all add: Compare_def compareInt_def comparePrerelease_def)

lemma compareInt_eq_0: "compareInt x y = 0 \<longleftrightarrow> x = y"
  by (simp add: compareInt_def)

lemma comparePrerelease_loop_nonzero: "comparePrerelease_loop x y \<noteq> 0"
proof (induction x y rule: comparePrerelease_loop.induct)
  case (1 x y)
  show ?case
  proof (cases "x \<noteq> [] \<and> y \<noteq> [] \<and> fst (nextIdent (tl x)) = fst (nextIdent (tl y))")
    case True
    then have "comparePrerelease_loop x y =
        comparePrerelease_loop (snd (nextIdent (tl x))) (snd (nextIdent (tl y)))"
      by (subst comparePrerelease_loop.simps) (simp add: Let_def)
    moreover have "comparePrerelease_loop (snd (nextIdent (tl x))) (snd (nextIdent (tl y))) \<noteq> 0"
      using True by (intro "1.IH") simp_all
    ultimately show ?thesis by simp
  next
    case False
    then show ?thesis
      by (subst comparePrerelease_loop.simps) (auto simp: Let_def)
  qed
qed

lemma comparePrerelease_eq_0: "comparePrerelease x y = 0 \<longleftrightarrow> x = y"
  using comparePrerelease_loop_nonzero [of x y] by (simp add: comparePrerelease_def)

lemma Compare_eq_0_iff:
  assumes "parse v = Some pv" and "parse w = Some pw"
  shows "Compare v w = 0 \<longleftrightarrow>
           major pv = major pw \<and> minor pv = minor pw \<and> patch pv = patch pw \<and>
           prerelease pv = prerelease pw"
  using assms by (auto simp: Compare_def compareInt_eq_0 comparePrerelease_eq_0)

lemma in_interval_iff:
  "in_interval v d \<longleftrightarrow> Compare (Low d) v \<le> 0 \<and> Compare v (High d) \<le> 0"
  using Compare_antisym [of v "Low d"] by (auto simp: in_interval_def)


section \<open>Properties of the analyzer's loops\<close>

lemma isDeprecated_loop_first:
  assumes "\<forall>x \<in> set pre. \<not> HasPrefix (TrimSpace (TrimPrefix (Token x) ''//'')) ''Deprecated:''"
    and "HasPrefix (TrimSpace (TrimPrefix (Token c) ''//'')) ''Deprecated:''"
  shows "isDeprecated_loop (pre @ c # post) =
           (True, TrimSpace (drop 11 (TrimSpace (TrimPrefix (Token c) ''//''))))"
  using assms by (induction pre) (simp_all add: deprecated_prefix_def Let_def eval_nat_numeral)

lemma isDeprecated_loop_none:
  assumes "\<forall>x \<in> set cs. \<not> HasPrefix (TrimSpace (TrimPrefix (Token x) ''//'')) ''Deprecated:''"
  shows "isDeprecated_loop cs = (False, [])"
  using assms by (induction cs) (simp_all add: deprecated_prefix_def Let_def)

lemma isRetracted_loop_first:
  assumes "\<forall>x \<in> set pre. \<exists>d'. x = Some d' \<and> \<not> in_interval v d'"
    and "in_interval v d"
  shows "isRetracted_loop (pre @ Some d # post) v = Inr (True, Rationale d)"
  using assms by (induction pre) auto

lemma isRetracted_loop_none:
  assumes "\<forall>d \<in> set ds. \<not> in_interval v d"
  shows "isRetracted_loop (map Some ds) v = Inr (False, [])"
  using assms by (induction ds) auto

lemma isRetracted_loop_some:
  assumes "\<exists>d \<in> set ds. in_interval v d"
  shows "\<exists>why. isRetracted_loop (map Some ds) v = Inr (True, why)"
  using assms by (induction ds) auto

lemma isRetracted_loop_total:
  assumes "list_all (\<lambda>r. r \<noteq> None) ds"
  shows "\<exists>res. isRetracted_loop ds v = Inr res"
  using assms by (induction ds) auto

lemma isDeprecated_total:
  assumes "wf_File f"
  shows "\<exists>res. isDeprecated (Some f) = Inr res"
  using assms by (auto simp: wf_File_def isDeprecated_def split: option.splits)

lemma isRetracted_total:
  assumes "wf_File f"
  shows "\<exists>res. isRetracted (Some f) v = Inr res"
  using assms isRetracted_loop_total [of "Retract f" v]
  by (simp add: wf_File_def isRetracted_def)

section \<open>Properties of \<open>PopulateModule\<close> and of the pipeline\<close>

lemma PopulateModule_Units: "Units (snd (PopulateModule r m)) = Units m"
  by (simp add: PopulateModule_def Let_def split: sum.splits prod.splits)

lemma PopulateModule_again: "PopulateModule r (snd (PopulateModule r m)) = PopulateModule r m"
  by (simp add: PopulateModule_def Let_def split: sum.splits prod.splits)

lemma PopulateModule_same_version:
  assumes "Module.Version m2 = Module.Version m" and "fst (PopulateModule r m) = None"
  shows "fst (PopulateModule r m2) = None \<and>
         lifecycle (snd (PopulateModule r m2)) = lifecycle (snd (PopulateModule r m))"
  using assms
  by (auto simp: PopulateModule_def Let_def lifecycle_def split: sum.splits prod.splits)


lemma Replace_rejects:
  assumes "st k = Some prior" and "Units prior \<noteq> []"
    and "degenerate further k (Units prior) (Units cand)"
  shows "Replace further k cand st = (Inl ValidationRejected, st)"
  using assms by (simp add: Replace_def)

lemma Replace_accepts:
  assumes "\<forall>prior. st k = Some prior \<longrightarrow>
             \<not> (Units prior \<noteq> [] \<and> degenerate further k (Units prior) (Units cand))"
  shows "Replace further k cand st = (Inr (), st(k \<mapsto> cand))"
  using assms by (auto simp: Replace_def split: option.splits)

lemma Replace_Inl:
  "Replace further k cand st = (Inl e, st') \<Longrightarrow>
     st' = st \<and> e = ValidationRejected \<and>
     (\<exists>prior. st k = Some prior \<and> Units prior \<noteq> [] \<and>
        degenerate further k (Units prior) (Units cand))"
  by (auto simp: Replace_def split: option.splits if_splits)

lemma Replace_Inr:
  "Replace further k cand st = (Inr u, st') \<Longrightarrow> st' = st(k \<mapsto> cand)"
  by (auto simp: Replace_def split: option.splits if_splits)

lemma Ingest_failure_keeps_store:
  "Ingest further fetcher extractor k st = (Inl e, st') \<Longrightarrow> st' = st"
  by (auto simp: Ingest_def split: option.splits prod.splits sum.splits dest!: Replace_Inl)

lemma Ingest_success_stores:
  "Ingest further fetcher extractor k st = (Inr m, st') \<Longrightarrow> st' = st(k \<mapsto> m)"
  by (auto simp: Ingest_def split: option.splits prod.splits sum.splits dest!: Replace_Inr)

lemma Ingest_twice:
  "snd (Ingest further fetcher extractor k (snd (Ingest further fetcher extractor k st))) =
   snd (Ingest further fetcher extractor k st)"
proof (cases "Ingest further fetcher extractor k st")
  case (Pair res st1)
  show ?thesis
  proof (cases res)
    case (Inl e)
    with Pair have "st1 = st" by (auto dest: Ingest_failure_keeps_store)
    with Pair show ?thesis by simp
  next
    case (Inr m)
    with Pair have st1: "st1 = st(k \<mapsto> m)" by (auto dest: Ingest_success_stores)
    obtain res2 st2 where two: "Ingest further fetcher extractor k st1 = (res2, st2)"
      by (cases "Ingest further fetcher extractor k st1")
    have "st2 = st1"
    proof (cases res2)
      case (Inl e)
      with two show ?thesis by (auto dest: Ingest_failure_keeps_store)
    next
      case (Inr m2)
      with two have "st2 = st1(k \<mapsto> m2)" by (auto dest: Ingest_success_stores)
      moreover have "m2 = m"
        using Pair \<open>res = Inr m\<close> two Inr
        by (auto simp: Ingest_def split: option.splits prod.splits sum.splits)
      ultimately show ?thesis using st1 by simp
    qed
    with Pair two show ?thesis by simp
  qed
qed

lemma find_by_path:
  assumes "distinct (map unit_path us)" and "u \<in> set us"
  shows "find (\<lambda>x. unit_path x = unit_path u) us = Some u"
  using assms by (induction us) (auto simp: image_iff)

lemma sample_analysis:
  "PopulateModule sample_info (candidate k units) = (None, candidate k units)"
  by (simp add: PopulateModule_def sample_info_def isDeprecated_def isRetracted_def candidate_def)

lemma Units_candidate: "Units (candidate k units) = units"
  by (simp add: candidate_def)

lemma sample_degenerate_grown:
  "\<not> degenerate no_unit_dropped sample_key [foo_unit] [foo_unit_refreshed, bar_unit]"
  by (simp add: degenerate_def no_unit_dropped_def missing_mandatory_def sample_key_def
      foo_unit_def foo_unit_refreshed_def bar_unit_def)

lemma sample_degenerate_same:
  "\<not> degenerate no_unit_dropped sample_key [foo_unit] [foo_unit, bar_unit]"
  by (simp add: degenerate_def no_unit_dropped_def missing_mandatory_def sample_key_def
      foo_unit_def bar_unit_def)

lemma sample_degenerate_shrunk:
  "degenerate no_unit_dropped sample_key [foo_unit, bar_unit] [foo_unit]"
  by (simp add: degenerate_def no_unit_dropped_def missing_mandatory_def sample_key_def
      foo_unit_def bar_unit_def)

lemma sample_first_ingestion:
  "Ingest further (sample_fetcher units) sample_extractor sample_key Map.empty =
     (Inr (candidate sample_key units), [sample_key \<mapsto> candidate sample_key units])"
  by (simp add: Ingest_def sample_fetcher_def sample_extractor_def sample_analysis Replace_def)

text \<open>
  The model runs the scenario of \<open>TestReFetch\<close> as the test expects it: after the first
  fetch \<open>foo\<close> can be read, the second fetch is stored and \<open>bar\<close> can be read, and the
  third fetch, which has lost \<open>bar\<close>, is declined as "insert invalid" and changes nothing.
\<close>

lemma TestReFetch_scenario:
  "GetUnit (snd (Ingest no_unit_dropped (sample_fetcher [foo_unit]) sample_extractor
                   sample_key Map.empty))
     sample_key ''example.com/module/foo'' = Some foo_unit \<and>
   Ingest no_unit_dropped (sample_fetcher [foo_unit, bar_unit]) sample_extractor sample_key
       [sample_key \<mapsto> candidate sample_key [foo_unit]] =
     (Inr (candidate sample_key [foo_unit, bar_unit]),
      [sample_key \<mapsto> candidate sample_key [foo_unit, bar_unit]]) \<and>
   GetUnit [sample_key \<mapsto> candidate sample_key [foo_unit, bar_unit]]
     sample_key ''example.com/module/bar'' = Some bar_unit \<and>
   Ingest no_unit_dropped (sample_fetcher [foo_unit]) sample_extractor sample_key
       [sample_key \<mapsto> candidate sample_key [foo_unit, bar_unit]] =
     (Inl ValidationRejected, [sample_key \<mapsto> candidate sample_key [foo_unit, bar_unit]])"
proof -
  have one: "GetUnit [sample_key \<mapsto> candidate sample_key [foo_unit]]
      sample_key ''example.com/module/foo'' = Some foo_unit"
    by (simp add: GetUnit_def Units_candidate foo_unit_def)
  have two: "Ingest no_unit_dropped (sample_fetcher [foo_unit, bar_unit]) sample_extractor
        sample_key [sample_key \<mapsto> candidate sample_key [foo_unit]] =
      (Inr (candidate sample_key [foo_unit, bar_unit]),
       [sample_key \<mapsto> candidate sample_key [foo_unit, bar_unit]])"
    using sample_degenerate_same
    by (simp add: Ingest_def sample_fetcher_def sample_extractor_def sample_analysis
        Replace_def Units_candidate)
  have three: "GetUnit [sample_key \<mapsto> candidate sample_key [foo_unit, bar_unit]]
      sample_key ''example.com/module/bar'' = Some bar_unit"
    by (simp add: GetUnit_def Units_candidate foo_unit_def bar_unit_def)
  have four: "Ingest no_unit_dropped (sample_fetcher [foo_unit]) sample_extractor sample_key
       [sample_key \<mapsto> candidate sample_key [foo_unit, bar_unit]] =
     (Inl ValidationRejected, [sample_key \<mapsto> candidate sample_key [foo_unit, bar_unit]])"
    using sample_degenerate_shrunk
    by (simp add: Ingest_def sample_fetcher_def sample_extractor_def sample_analysis
        Replace_def Units_candidate)
  from one two three four show ?thesis
    by (simp add: sample_first_ingestion)
qed


section \<open>Retraction detection\<close>

text \<open>
  C3, as amended. Retraction detection treats a retract directive as a range that is
  inclusive at both ends under the order of \<open>semver.Compare\<close>, not the order of the
  strings: with every directive present, the version \<open>v\<close> is reported retracted exactly
  when some directive has \<open>low \<le> v \<le> high\<close> in that order, and not retracted, with an
  empty rationale, exactly when none has; a single directive decides by that test alone.
  A directive with \<open>low = high\<close> retracts exactly the versions that compare equal to
  \<open>low\<close>: among valid versions, those with the same major, minor and patch numbers and the
  same prerelease, whatever their build metadata. Version strings carry the leading \<open>v\<close>
  the comparator requires: the directive from \<open>v1.0.0\<close> to \<open>v1.2.0\<close> with rationale "bug"
  retracts \<open>v1.2.0\<close> with rationale "bug" and does not retract \<open>v1.2.1\<close>.
\<close>

theorem isRetracted_inclusive_semver:
  assumes "Retract f = map Some ds"
  shows "((\<exists>why. isRetracted (Some f) v = Inr (True, why)) \<longleftrightarrow>
            (\<exists>d \<in> set ds. Compare (Low d) v \<le> 0 \<and> Compare v (High d) \<le> 0)) \<and>
         (isRetracted (Some f) v = Inr (False, []) \<longleftrightarrow>
            \<not> (\<exists>d \<in> set ds. Compare (Low d) v \<le> 0 \<and> Compare v (High d) \<le> 0)) \<and>
         (\<forall>d. ds = [d] \<longrightarrow>
            isRetracted (Some f) v =
              Inr (if Compare (Low d) v \<le> 0 \<and> Compare v (High d) \<le> 0
                   then (True, Rationale d) else (False, []))) \<and>
         (\<forall>d. ds = [d] \<and> Low d = High d \<longrightarrow>
            (isRetracted (Some f) v = Inr (True, Rationale d) \<longleftrightarrow> Compare v (Low d) = 0)) \<and>
         (\<forall>d pv pl.
            ds = [d] \<and> Low d = High d \<and> parse v = Some pv \<and> parse (Low d) = Some pl \<longrightarrow>
            (isRetracted (Some f) v = Inr (True, Rationale d) \<longleftrightarrow>
               major pv = major pl \<and> minor pv = minor pl \<and> patch pv = patch pl \<and>
               prerelease pv = prerelease pl)) \<and>
         (ds = [\<lparr>Low = ''v1.0.0'', High = ''v1.2.0'', Rationale = ''bug''\<rparr>] \<longrightarrow>
            isRetracted (Some f) ''v1.2.0'' = Inr (True, ''bug'') \<and>
            isRetracted (Some f) ''v1.2.1'' = Inr (False, []))"
proof -
  let ?hit = "\<exists>d \<in> set ds. Compare (Low d) v \<le> 0 \<and> Compare v (High d) \<le> 0"
  have run: "isRetracted (Some f) w = isRetracted_loop (map Some ds) w" for w
    using assms by (simp add: isRetracted_def)
  have hit: "?hit \<longleftrightarrow> (\<exists>d \<in> set ds. in_interval v d)"
    by (simp add: in_interval_iff)
  have yes: "?hit \<Longrightarrow> \<exists>why. isRetracted (Some f) v = Inr (True, why)"
    using isRetracted_loop_some [of ds v] by (simp add: run hit)
  have no: "\<not> ?hit \<Longrightarrow> isRetracted (Some f) v = Inr (False, [])"
    using isRetracted_loop_none [of ds v] by (simp add: run hit)
  have c1: "(\<exists>why. isRetracted (Some f) v = Inr (True, why)) \<longleftrightarrow> ?hit"
    using yes no by (cases ?hit) auto
  have c2: "isRetracted (Some f) v = Inr (False, []) \<longleftrightarrow> \<not> ?hit"
    using yes no by (cases ?hit) auto
  have c3: "\<forall>d. ds = [d] \<longrightarrow>
            isRetracted (Some f) v =
              Inr (if Compare (Low d) v \<le> 0 \<and> Compare v (High d) \<le> 0
                   then (True, Rationale d) else (False, []))"
    by (simp add: run in_interval_iff)
  have c4: "\<forall>d. ds = [d] \<and> Low d = High d \<longrightarrow>
            (isRetracted (Some f) v = Inr (True, Rationale d) \<longleftrightarrow> Compare v (Low d) = 0)"
  proof (intro allI impI)
    fix d assume d: "ds = [d] \<and> Low d = High d"
    have "Compare (Low d) v = - Compare v (Low d)" by (rule Compare_antisym)
    with d show "isRetracted (Some f) v = Inr (True, Rationale d) \<longleftrightarrow> Compare v (Low d) = 0"
      by (auto simp: run in_interval_def)
  qed
  have a: "in_interval ''v1.2.0'' \<lparr>Low = ''v1.0.0'', High = ''v1.2.0'', Rationale = ''bug''\<rparr>"
    by code_simp
  have b: "\<not> in_interval ''v1.2.1'' \<lparr>Low = ''v1.0.0'', High = ''v1.2.0'', Rationale = ''bug''\<rparr>"
    by code_simp
  have c5: "ds = [\<lparr>Low = ''v1.0.0'', High = ''v1.2.0'', Rationale = ''bug''\<rparr>] \<longrightarrow>
            isRetracted (Some f) ''v1.2.0'' = Inr (True, ''bug'') \<and>
            isRetracted (Some f) ''v1.2.1'' = Inr (False, [])"
    using a b by (simp add: run)
  have c6: "\<forall>d pv pl.
            ds = [d] \<and> Low d = High d \<and> parse v = Some pv \<and> parse (Low d) = Some pl \<longrightarrow>
            (isRetracted (Some f) v = Inr (True, Rationale d) \<longleftrightarrow>
               major pv = major pl \<and> minor pv = minor pl \<and> patch pv = patch pl \<and>
               prerelease pv = prerelease pl)"
  proof (intro allI impI)
    fix d pv pl
    assume h: "ds = [d] \<and> Low d = High d \<and> parse v = Some pv \<and> parse (Low d) = Some pl"
    with c4 have "isRetracted (Some f) v = Inr (True, Rationale d) \<longleftrightarrow> Compare v (Low d) = 0"
      by blast
    also have "Compare v (Low d) = 0 \<longleftrightarrow>
        major pv = major pl \<and> minor pv = minor pl \<and> patch pv = patch pl \<and>
        prerelease pv = prerelease pl"
    proof -
      from h have pv: "parse v = Some pv" and pl: "parse (Low d) = Some pl"
        by blast+
      show ?thesis by (rule Compare_eq_0_iff [OF pv pl])
    qed
    finally show "isRetracted (Some f) v = Inr (True, Rationale d) \<longleftrightarrow>
        major pv = major pl \<and> minor pv = minor pl \<and> patch pv = patch pl \<and>
        prerelease pv = prerelease pl" .
  qed
  from c1 c2 c3 c4 c5 c6 show ?thesis by blast
qed

theorem isRetracted_inclusive_semver_witness:
  "Retract \<lparr>Module = None,
            Retract = [Some \<lparr>Low = ''v1.2.0'', High = ''v1.10.0'', Rationale = ''broken''\<rparr>]\<rparr> =
     map Some [\<lparr>Low = ''v1.2.0'', High = ''v1.10.0'', Rationale = ''broken''\<rparr>] \<and>
   isRetracted (Some \<lparr>Module = None,
            Retract = [Some \<lparr>Low = ''v1.2.0'', High = ''v1.10.0'', Rationale = ''broken''\<rparr>]\<rparr>)
     ''v1.9.0'' = Inr (True, ''broken'') \<and>
   str_less ''v1.10.0'' ''v1.9.0''"
proof -
  let ?d = "\<lparr>Low = ''v1.2.0'', High = ''v1.10.0'', Rationale = ''broken''\<rparr>"
  let ?f = "\<lparr>Module = None, Retract = [Some ?d]\<rparr>"
  have r: "Retract ?f = map Some [?d]" by simp
  have lo: "Compare ''v1.2.0'' ''v1.9.0'' \<le> 0" by code_simp
  have hi: "Compare ''v1.9.0'' ''v1.10.0'' \<le> 0" by code_simp
  have lex: "str_less ''v1.10.0'' ''v1.9.0''" by code_simp
  from isRetracted_inclusive_semver [OF r, of "''v1.9.0''"]
  have "isRetracted (Some ?f) ''v1.9.0'' =
          Inr (if Compare (Low ?d) ''v1.9.0'' \<le> 0 \<and> Compare ''v1.9.0'' (High ?d) \<le> 0
               then (True, Rationale ?d) else (False, []))"
    by blast
  with lo hi have "isRetracted (Some ?f) ''v1.9.0'' = Inr (True, ''broken'')" by simp
  with r lex show ?thesis by blast
qed

text \<open>
  C3 as it was stated fails at two places. Written without the leading \<open>v\<close>, the strings
  of the claimed instance are invalid for the comparator, and invalid strings compare
  equal: against the directive from \<open>1.0.0\<close> to \<open>1.2.0\<close> the string \<open>1.2.1\<close> is reported
  retracted. And a directive with \<open>low = high\<close> retracts more than one valid version
  string: the directive for \<open>v1.2.0\<close> retracts \<open>v1.2.0+incompatible\<close> as well.
\<close>

theorem isRetracted_claimed_instance_counterexample:
  "isRetracted
     (Some \<lparr>Module = None,
            Retract = [Some \<lparr>Low = ''1.0.0'', High = ''1.2.0'', Rationale = ''bug''\<rparr>]\<rparr>)
     ''1.2.1'' = Inr (True, ''bug'') \<and>
   isRetracted
     (Some \<lparr>Module = None,
            Retract = [Some \<lparr>Low = ''v1.2.0'', High = ''v1.2.0'', Rationale = ''one''\<rparr>]\<rparr>)
     ''v1.2.0'' = Inr (True, ''one'') \<and>
   isRetracted
     (Some \<lparr>Module = None,
            Retract = [Some \<lparr>Low = ''v1.2.0'', High = ''v1.2.0'', Rationale = ''one''\<rparr>]\<rparr>)
     ''v1.2.0+incompatible'' = Inr (True, ''one'') \<and>
   IsValid ''v1.2.0'' \<and> IsValid ''v1.2.0+incompatible'' \<and>
   ''v1.2.0'' \<noteq> ''v1.2.0+incompatible''"
  by code_simp

text \<open>
  C5. When several retract directives, overlapping or not, contain the resolved version,
  retraction detection returns true with the rationale of the first of them in file order:
  the directives before it do not contain the version, and the directives after it are
  not looked at.
\<close>

theorem isRetracted_first_directive:
  assumes "Retract f = pre @ Some d # post"
    and "\<forall>x \<in> set pre. \<exists>d'. x = Some d' \<and> \<not> in_interval v d'"
    and "in_interval v d"
  shows "isRetracted (Some f) v = Inr (True, Rationale d)"
  using assms isRetracted_loop_first [of pre v d post] by (simp add: isRetracted_def)

theorem isRetracted_first_directive_witness:
  "isRetracted (Some \<lparr>Module = None, Retract =
      [Some \<lparr>Low = ''v0.1.0'', High = ''v0.9.0'', Rationale = ''experimental''\<rparr>,
       Some \<lparr>Low = ''v1.0.0'', High = ''v1.5.0'', Rationale = ''data loss''\<rparr>,
       Some \<lparr>Low = ''v1.2.0'', High = ''v1.3.0'', Rationale = ''panics''\<rparr>]\<rparr>) ''v1.2.5'' =
     Inr (True, ''data loss'') \<and>
   in_interval ''v1.2.5'' \<lparr>Low = ''v1.2.0'', High = ''v1.3.0'', Rationale = ''panics''\<rparr>"
proof -
  let ?a = "\<lparr>Low = ''v0.1.0'', High = ''v0.9.0'', Rationale = ''experimental''\<rparr>"
  let ?b = "\<lparr>Low = ''v1.0.0'', High = ''v1.5.0'', Rationale = ''data loss''\<rparr>"
  let ?c = "\<lparr>Low = ''v1.2.0'', High = ''v1.3.0'', Rationale = ''panics''\<rparr>"
  let ?f = "\<lparr>Module = None, Retract = [Some ?a, Some ?b, Some ?c]\<rparr>"
  have r: "Retract ?f = [Some ?a] @ Some ?b # [Some ?c]"
    by simp
  have na: "\<not> in_interval ''v1.2.5'' ?a" by code_simp
  have yb: "in_interval ''v1.2.5'' ?b" by code_simp
  have yc: "in_interval ''v1.2.5'' ?c" by code_simp
  from na have pre: "\<forall>x \<in> set [Some ?a]. \<exists>d'. x = Some d' \<and> \<not> in_interval ''v1.2.5'' d'"
    by simp
  from isRetracted_first_directive [OF r pre yb] yc show ?thesis by simp
qed


section \<open>Deprecation detection\<close>

text \<open>
  C4. For a manifest with a module declaration, deprecation detection scans the comments
  before the declaration and then the comment at the end of its line. The first comment
  whose text, with the leading \<open>//\<close> and the surrounding white space removed, begins with
  \<open>Deprecated:\<close> decides: the result is true with the trimmed text after the marker, whatever
  the later comments are. When no comment matches the result is false with the empty
  string. The comment \<open>// Deprecated: use baz instead\<close> gives true with
  \<open>use baz instead\<close>.
\<close>

theorem isDeprecated_first_comment:
  assumes "Module f = Some md" and "Syntax md = Some ln"
  shows "(\<forall>pre c post.
            Before ln @ Suffix ln = pre @ c # post \<and>
            (\<forall>x \<in> set pre. \<not> HasPrefix (TrimSpace (TrimPrefix (Token x) ''//'')) ''Deprecated:'') \<and>
            HasPrefix (TrimSpace (TrimPrefix (Token c) ''//'')) ''Deprecated:'' \<longrightarrow>
            isDeprecated (Some f) =
              Inr (True, TrimSpace (drop 11 (TrimSpace (TrimPrefix (Token c) ''//''))))) \<and>
         ((\<forall>x \<in> set (Before ln @ Suffix ln).
              \<not> HasPrefix (TrimSpace (TrimPrefix (Token x) ''//'')) ''Deprecated:'') \<longrightarrow>
            isDeprecated (Some f) = Inr (False, [])) \<and>
         (Before ln @ Suffix ln = [\<lparr>Token = ''// Deprecated: use baz instead''\<rparr>] \<longrightarrow>
            isDeprecated (Some f) = Inr (True, ''use baz instead''))"
proof (intro conjI allI impI)
  fix pre c post
  assume h: "Before ln @ Suffix ln = pre @ c # post \<and>
        (\<forall>x \<in> set pre. \<not> HasPrefix (TrimSpace (TrimPrefix (Token x) ''//'')) ''Deprecated:'') \<and>
        HasPrefix (TrimSpace (TrimPrefix (Token c) ''//'')) ''Deprecated:''"
  then have "isDeprecated_loop (Before ln @ Suffix ln) =
        (True, TrimSpace (drop 11 (TrimSpace (TrimPrefix (Token c) ''//''))))"
    using isDeprecated_loop_first [of pre c post] by simp
  with assms show "isDeprecated (Some f) =
        Inr (True, TrimSpace (drop 11 (TrimSpace (TrimPrefix (Token c) ''//''))))"
    by (simp add: isDeprecated_def)
next
  assume "\<forall>x \<in> set (Before ln @ Suffix ln).
        \<not> HasPrefix (TrimSpace (TrimPrefix (Token x) ''//'')) ''Deprecated:''"
  then have "isDeprecated_loop (Before ln @ Suffix ln) = (False, [])"
    by (rule isDeprecated_loop_none)
  with assms show "isDeprecated (Some f) = Inr (False, [])"
    by (simp add: isDeprecated_def)
next
  assume one: "Before ln @ Suffix ln = [\<lparr>Token = ''// Deprecated: use baz instead''\<rparr>]"
  have "isDeprecated_loop [\<lparr>Token = ''// Deprecated: use baz instead''\<rparr>] =
          (True, ''use baz instead'')"
    by code_simp
  with assms one show "isDeprecated (Some f) = Inr (True, ''use baz instead'')"
    by (simp add: isDeprecated_def)
qed

theorem isDeprecated_first_comment_witness:
  "isDeprecated (Some \<lparr>Module = Some \<lparr>Syntax = Some
       \<lparr>Before = [\<lparr>Token = ''// Package notes''\<rparr>, \<lparr>Token = ''// Deprecated: use v2''\<rparr>],
        Suffix = [\<lparr>Token = ''// Deprecated: later''\<rparr>], After = []\<rparr>\<rparr>, Retract = []\<rparr>) =
     Inr (True, ''use v2'')"
proof -
  let ?a = "\<lparr>Token = ''// Package notes''\<rparr>"
  let ?b = "\<lparr>Token = ''// Deprecated: use v2''\<rparr>"
  let ?c = "\<lparr>Token = ''// Deprecated: later''\<rparr>"
  let ?ln = "\<lparr>Before = [?a, ?b], Suffix = [?c], After = []\<rparr>"
  let ?md = "\<lparr>Syntax = Some ?ln\<rparr>"
  let ?f = "\<lparr>Module = Some ?md, Retract = []\<rparr>"
  have m: "Module ?f = Some ?md" and s: "Syntax ?md = Some ?ln"
    by simp_all
  have split: "Before ?ln @ Suffix ?ln = [?a] @ ?b # [?c]"
    by simp
  have na: "\<forall>x \<in> set [?a]. \<not> HasPrefix (TrimSpace (TrimPrefix (Token x) ''//'')) ''Deprecated:''"
    by code_simp
  have yb: "HasPrefix (TrimSpace (TrimPrefix (Token ?b) ''//'')) ''Deprecated:''"
    by code_simp
  have rb: "TrimSpace (drop 11 (TrimSpace (TrimPrefix (Token ?b) ''//''))) = ''use v2''"
    by code_simp
  from isDeprecated_first_comment [OF m s] split na yb
  have "isDeprecated (Some ?f) =
          Inr (True, TrimSpace (drop 11 (TrimSpace (TrimPrefix (Token ?b) ''//''))))"
    by blast
  with rb show ?thesis by simp
qed


section \<open>The analysis as a whole\<close>

text \<open>
  C6. On a parsed manifest the lifecycle analysis never fails, for any resolved version:
  \<open>isDeprecated\<close> and \<open>isRetracted\<close> return a result and \<open>PopulateModule\<close> ends without a
  panic. Absence of data gives the default: a manifest with no module declaration, or with
  a declaration that has no comment, is not deprecated, and a manifest with no retract
  directive retracts nothing, each with the empty string.
\<close>

theorem analysis_never_fails:
  assumes "wf_File f"
  shows "(\<exists>res. isDeprecated (Some f) = Inr res) \<and>
         (\<exists>res. isRetracted (Some f) v = Inr res) \<and>
         (GoModFile r = Some f \<longrightarrow> fst (PopulateModule r m) = None) \<and>
         (Module f = None \<longrightarrow> isDeprecated (Some f) = Inr (False, [])) \<and>
         (\<forall>md ln. Module f = Some md \<and> Syntax md = Some ln \<and> Before ln @ Suffix ln = [] \<longrightarrow>
            isDeprecated (Some f) = Inr (False, [])) \<and>
         (Retract f = [] \<longrightarrow> isRetracted (Some f) v = Inr (False, []))"
proof -
  obtain a where a: "isDeprecated (Some f) = Inr a"
    using isDeprecated_total [OF assms] by blast
  obtain b where b: "isRetracted (Some f) w = Inr b" if "w = Module.Version m" for w
    using isRetracted_total [OF assms] by blast
  have "GoModFile r = Some f \<longrightarrow> fst (PopulateModule r m) = None"
    using a b by (cases a; cases b) (simp add: PopulateModule_def Let_def)
  moreover have "Module f = None \<longrightarrow> isDeprecated (Some f) = Inr (False, [])"
    by (simp add: isDeprecated_def)
  moreover have "\<forall>md ln. Module f = Some md \<and> Syntax md = Some ln \<and> Before ln @ Suffix ln = [] \<longrightarrow>
            isDeprecated (Some f) = Inr (False, [])"
    by (simp add: isDeprecated_def)
  moreover have "Retract f = [] \<longrightarrow> isRetracted (Some f) v = Inr (False, [])"
    by (simp add: isRetracted_def)
  ultimately show ?thesis
    using isDeprecated_total [OF assms] isRetracted_total [OF assms, of v] by blast
qed

theorem analysis_never_fails_witness:
  "wf_File \<lparr>Module = None, Retract = []\<rparr> \<and>
   isDeprecated (Some \<lparr>Module = None, Retract = []\<rparr>) = Inr (False, []) \<and>
   isRetracted (Some \<lparr>Module = None, Retract = []\<rparr>) ''v1.0.0'' = Inr (False, []) \<and>
   fst (PopulateModule \<lparr>ModulePath = ''example.com/m'', Version = ''v1.0.0'',
                         GoModFile = Some \<lparr>Module = None, Retract = []\<rparr>\<rparr>
          \<lparr>Module.Version = ''v1.0.0'', Deprecated = True, DeprecationComment = ''old'',
           Retracted = True, RetractionRationale = ''old''\<rparr>) = None"
proof -
  let ?f = "\<lparr>Module = None, Retract = []\<rparr>"
  have wf: "wf_File ?f" by (simp add: wf_File_def)
  from analysis_never_fails [OF wf, of "''v1.0.0''"
      "\<lparr>ModulePath = ''example.com/m'', Version = ''v1.0.0'', GoModFile = Some ?f\<rparr>"
      "\<lparr>Module.Version = ''v1.0.0'', Deprecated = True, DeprecationComment = ''old'',
           Retracted = True, RetractionRationale = ''old''\<rparr>"] wf
  show ?thesis by simp
qed

section \<open>Populating a module\<close>

text \<open>
  C9. For every \<open>RawLatestInfo\<close> \<open>r\<close> and module \<open>m\<close>, \<open>r.PopulateModule(m)\<close> changes at
  most the four lifecycle fields of \<open>m\<close>: its version and every other field (the record's
  extension) are after the call what they were before it, also when the call panics.
\<close>

theorem PopulateModule_frame:
  "Module.Version (snd (PopulateModule r m)) = Module.Version m \<and>
   Module.more (snd (PopulateModule r m)) = Module.more m"
proof (cases "isDeprecated (GoModFile r)")
  case (Inl p)
  then show ?thesis by (simp add: PopulateModule_def)
next
  case (Inr res)
  then show ?thesis
    by (cases res; cases "isRetracted (GoModFile r) (Module.Version m)")
      (auto simp: PopulateModule_def Let_def)
qed

theorem PopulateModule_frame_witness:
  "Module.Version (snd (PopulateModule
      \<lparr>ModulePath = ''example.com/m'', Version = ''v1.9.0'',
       GoModFile = Some \<lparr>Module = Some \<lparr>Syntax = Some
          \<lparr>Before = [\<lparr>Token = ''// Deprecated: use v2''\<rparr>], Suffix = [], After = []\<rparr>\<rparr>,
          Retract = []\<rparr>\<rparr>
      (candidate (''example.com/m'', ''v1.1.0'') []))) = ''v1.1.0'' \<and>
   Units (snd (PopulateModule
      \<lparr>ModulePath = ''example.com/m'', Version = ''v1.9.0'',
       GoModFile = Some \<lparr>Module = Some \<lparr>Syntax = Some
          \<lparr>Before = [\<lparr>Token = ''// Deprecated: use v2''\<rparr>], Suffix = [], After = []\<rparr>\<rparr>,
          Retract = []\<rparr>\<rparr>
      (candidate (''example.com/m'', ''v1.1.0'') []))) = []"
proof -
  let ?r = "\<lparr>ModulePath = ''example.com/m'', Version = ''v1.9.0'',
       GoModFile = Some \<lparr>Module = Some \<lparr>Syntax = Some
          \<lparr>Before = [\<lparr>Token = ''// Deprecated: use v2''\<rparr>], Suffix = [], After = []\<rparr>\<rparr>,
          Retract = []\<rparr>\<rparr>"
  let ?m = "candidate (''example.com/m'', ''v1.1.0'') []"
  have "Module.more (snd (PopulateModule ?r ?m)) = Module.more ?m"
    using PopulateModule_frame [of ?r ?m] by blast
  then have "Units (snd (PopulateModule ?r ?m)) = Units ?m"
    by (cases "snd (PopulateModule ?r ?m)", cases ?m) simp
  then show ?thesis
    using PopulateModule_frame [of ?r ?m] by (simp add: candidate_def)
qed



text \<open>
  C8. The lifecycle status is a function of the manifest and the resolved version alone:
  running \<open>PopulateModule\<close> again on its own result changes nothing, and two modules of the
  same version get the same four lifecycle fields from the same manifest, whatever they
  held before. Ingesting the same contents for a key a second time leaves the store as
  the first ingestion left it.
\<close>

theorem lifecycle_recomputation_idempotent:
  "PopulateModule r (snd (PopulateModule r m)) = PopulateModule r m \<and>
   (\<forall>m2 :: 'a Module_scheme.
      Module.Version m2 = Module.Version m \<and> fst (PopulateModule r m) = None \<longrightarrow>
      fst (PopulateModule r m2) = None \<and>
      lifecycle (snd (PopulateModule r m2)) = lifecycle (snd (PopulateModule r m))) \<and>
   snd (Ingest further fetcher extractor k (snd (Ingest further fetcher extractor k st))) =
     snd (Ingest further fetcher extractor k st)"
  using PopulateModule_again [of r m] PopulateModule_same_version [of _ m r]
    Ingest_twice [of further fetcher extractor k st]
  by blast

theorem lifecycle_recomputation_idempotent_witness:
  "lifecycle (snd (PopulateModule sample_info
      ((candidate sample_key [])\<lparr>Deprecated := True, RetractionRationale := ''stale''\<rparr>))) =
     lifecycle (snd (PopulateModule sample_info (candidate sample_key []))) \<and>
   snd (Ingest no_unit_dropped (sample_fetcher [foo_unit]) sample_extractor sample_key
     (snd (Ingest no_unit_dropped (sample_fetcher [foo_unit]) sample_extractor sample_key
        Map.empty))) =
     [sample_key \<mapsto> candidate sample_key [foo_unit]]"
proof -
  let ?m = "candidate sample_key []"
  let ?m2 = "?m\<lparr>Deprecated := True, RetractionRationale := ''stale''\<rparr>"
  have v: "Module.Version ?m2 = Module.Version ?m" by simp
  have ok: "fst (PopulateModule sample_info ?m) = None" by (simp add: sample_analysis)
  note main = lifecycle_recomputation_idempotent
    [of sample_info ?m no_unit_dropped "sample_fetcher [foo_unit]" sample_extractor
      sample_key Map.empty]
  from main v ok have 1: "lifecycle (snd (PopulateModule sample_info ?m2)) =
      lifecycle (snd (PopulateModule sample_info ?m))"
    by blast
  from main have 2: "snd (Ingest no_unit_dropped (sample_fetcher [foo_unit]) sample_extractor
      sample_key (snd (Ingest no_unit_dropped (sample_fetcher [foo_unit]) sample_extractor
        sample_key Map.empty))) =
      snd (Ingest no_unit_dropped (sample_fetcher [foo_unit]) sample_extractor sample_key
        Map.empty)"
    by blast
  from 1 2 show ?thesis by (simp add: sample_first_ingestion)
qed


section \<open>Re-ingestion and the store\<close>

text \<open>
  C1. For a key stored with a non-empty unit set, re-ingesting it with a candidate set that
  is empty or otherwise degenerate returns \<open>ValidationRejected\<close>, from the store's replace
  operation and from the ingestion as a whole, and the store is returned as it was: the
  key still holds the record it held and its visible units are the prior ones.
\<close>

theorem degenerate_reingestion_rejected:
  assumes "st k = Some prior" and "Units prior \<noteq> []"
    and "fetcher k = Some raw" and "extractor raw = Some (units, info)"
    and "fst (PopulateModule info (candidate k units)) = None"
    and "units = [] \<or> degenerate further k (Units prior) units"
  shows "Ingest further fetcher extractor k st = (Inl ValidationRejected, st) \<and>
         Replace further k (snd (PopulateModule info (candidate k units))) st =
           (Inl ValidationRejected, st) \<and>
         snd (Ingest further fetcher extractor k st) k = Some prior \<and>
         visible (snd (Ingest further fetcher extractor k st)) k = set (Units prior)"
proof -
  obtain m where m: "PopulateModule info (candidate k units) = (None, m)"
    using assms(5) by (cases "PopulateModule info (candidate k units)") simp
  have "Units m = Units (candidate k units)"
    using PopulateModule_Units [of info "candidate k units"] m by simp
  then have um: "Units m = units" by (simp add: candidate_def)
  have "degenerate further k (Units prior) units"
    using assms(6) by (auto simp: degenerate_def)
  then have rej: "Replace further k m st = (Inl ValidationRejected, st)"
    using assms(1,2) um by (simp add: Replace_rejects)
  then have "Ingest further fetcher extractor k st = (Inl ValidationRejected, st)"
    using assms(3,4) m by (simp add: Ingest_def)
  with rej m assms(1) show ?thesis by (simp add: visible_def)
qed

theorem degenerate_reingestion_rejected_witness:
  "Ingest (\<lambda>prior cand. False) (sample_fetcher []) sample_extractor sample_key
       [sample_key \<mapsto> candidate sample_key [bar_unit]] =
     (Inl ValidationRejected, [sample_key \<mapsto> candidate sample_key [bar_unit]]) \<and>
   visible (snd (Ingest (\<lambda>prior cand. False) (sample_fetcher []) sample_extractor sample_key
       [sample_key \<mapsto> candidate sample_key [bar_unit]])) sample_key = {bar_unit}"
proof -
  let ?st = "[sample_key \<mapsto> candidate sample_key [bar_unit]]"
  have a: "?st sample_key = Some (candidate sample_key [bar_unit])" by simp
  have b: "Units (candidate sample_key [bar_unit]) \<noteq> []" by (simp add: Units_candidate)
  have c: "sample_fetcher [] sample_key = Some []" by (simp add: sample_fetcher_def)
  have d: "sample_extractor [] = Some ([], sample_info)" by (simp add: sample_extractor_def)
  have e: "fst (PopulateModule sample_info (candidate sample_key [])) = None"
    by (simp add: sample_analysis)
  have f: "([] :: UnitRecord list) = [] \<or>
      degenerate (\<lambda>prior cand. False) sample_key (Units (candidate sample_key [bar_unit])) []"
    by simp
  note main = degenerate_reingestion_rejected
    [where st = ?st and k = sample_key and prior = "candidate sample_key [bar_unit]"
      and fetcher = "sample_fetcher []" and raw = "[]" and extractor = sample_extractor
      and units = "[]" and info = sample_info and further = "\<lambda>prior cand. False"]
  from main [OF a b c d e f]
  have 1: "Ingest (\<lambda>prior cand. False) (sample_fetcher []) sample_extractor sample_key ?st =
      (Inl ValidationRejected, ?st)"
    and 2: "visible (snd (Ingest (\<lambda>prior cand. False) (sample_fetcher []) sample_extractor
      sample_key ?st)) sample_key = set (Units (candidate sample_key [bar_unit]))"
    by blast+
  have "set (Units (candidate sample_key [bar_unit])) = {bar_unit}"
    by (simp add: Units_candidate)
  with 1 2 show ?thesis
    by (simp only:)
qed

text \<open>
  C2. A valid re-ingestion supersedes the prior record as a whole. After a first ingestion
  of a key has succeeded, a second one whose candidate set is not degenerate relative to
  the stored one succeeds and stores exactly the candidate set: the visible units are the
  candidate's, a unit of the prior set that is not in the candidate set is no longer
  visible, each candidate unit is read back at its path with all its metadata (readme,
  documentation, licences) when the paths are distinct, and no other key changes.
\<close>

theorem valid_reingestion_supersedes:
  assumes "Ingest further fetcher1 extractor1 k st0 = (Inr m1, st1)"
    and "fetcher2 k = Some raw" and "extractor2 raw = Some (units, info)"
    and "PopulateModule info (candidate k units) = (None, m2)"
    and "\<not> (Units m1 \<noteq> [] \<and> degenerate further k (Units m1) units)"
  shows "Ingest further fetcher2 extractor2 k st1 = (Inr m2, st1(k \<mapsto> m2)) \<and>
         Units m2 = units \<and>
         visible (st1(k \<mapsto> m2)) k = set units \<and>
         (\<forall>u \<in> set (Units m1). u \<notin> set units \<longrightarrow> u \<notin> visible (st1(k \<mapsto> m2)) k) \<and>
         (\<forall>u \<in> set units. distinct (map unit_path units) \<longrightarrow>
            GetUnit (st1(k \<mapsto> m2)) k (unit_path u) = Some u) \<and>
         (\<forall>k'. k' \<noteq> k \<longrightarrow> (st1(k \<mapsto> m2)) k' = st1 k')"
proof -
  have st1: "st1 k = Some m1"
    using Ingest_success_stores [OF assms(1)] by simp
  have "Units m2 = Units (candidate k units)"
    using PopulateModule_Units [of info "candidate k units"] assms(4) by simp
  then have um: "Units m2 = units" by (simp add: candidate_def)
  have "Replace further k m2 st1 = (Inr (), st1(k \<mapsto> m2))"
    using st1 assms(5) um by (intro Replace_accepts) simp
  then have "Ingest further fetcher2 extractor2 k st1 = (Inr m2, st1(k \<mapsto> m2))"
    using assms(2,3,4) by (simp add: Ingest_def)
  moreover have "\<forall>u \<in> set units. distinct (map unit_path units) \<longrightarrow>
            GetUnit (st1(k \<mapsto> m2)) k (unit_path u) = Some u"
    using um by (simp add: GetUnit_def find_by_path)
  ultimately show ?thesis using um by (simp add: visible_def)
qed

theorem valid_reingestion_supersedes_witness:
  "Ingest no_unit_dropped (sample_fetcher [foo_unit_refreshed, bar_unit]) sample_extractor
       sample_key [sample_key \<mapsto> candidate sample_key [foo_unit]] =
     (Inr (candidate sample_key [foo_unit_refreshed, bar_unit]),
      [sample_key \<mapsto> candidate sample_key [foo_unit_refreshed, bar_unit]]) \<and>
   visible [sample_key \<mapsto> candidate sample_key [foo_unit_refreshed, bar_unit]] sample_key =
     {foo_unit_refreshed, bar_unit} \<and>
   foo_unit \<notin> visible [sample_key \<mapsto> candidate sample_key [foo_unit_refreshed, bar_unit]]
     sample_key \<and>
   GetUnit [sample_key \<mapsto> candidate sample_key [foo_unit_refreshed, bar_unit]] sample_key
     ''example.com/module/foo'' = Some foo_unit_refreshed \<and>
   GetUnit [sample_key \<mapsto> candidate sample_key [foo_unit_refreshed, bar_unit]] sample_key
     ''example.com/module/bar'' = Some bar_unit"
proof -
  let ?m1 = "candidate sample_key [foo_unit]"
  let ?units = "[foo_unit_refreshed, bar_unit]"
  let ?m2 = "candidate sample_key ?units"
  let ?st1 = "[sample_key \<mapsto> ?m1]"
  have upd: "?st1(sample_key \<mapsto> ?m2) = [sample_key \<mapsto> ?m2]" by simp
  have a: "Ingest no_unit_dropped (sample_fetcher [foo_unit]) sample_extractor sample_key
      Map.empty = (Inr ?m1, ?st1)"
    by (rule sample_first_ingestion)
  have b: "sample_fetcher ?units sample_key = Some ?units" by (simp add: sample_fetcher_def)
  have c: "sample_extractor ?units = Some (?units, sample_info)"
    by (simp add: sample_extractor_def)
  have d: "PopulateModule sample_info (candidate sample_key ?units) = (None, ?m2)"
    by (rule sample_analysis)
  have e: "\<not> (Units ?m1 \<noteq> [] \<and> degenerate no_unit_dropped sample_key (Units ?m1) ?units)"
    using sample_degenerate_grown by (simp add: Units_candidate)
  have paths: "distinct (map unit_path ?units)"
    "unit_path foo_unit_refreshed = ''example.com/module/foo''"
    "unit_path bar_unit = ''example.com/module/bar''"
    by (simp_all add: foo_unit_refreshed_def foo_unit_def bar_unit_def)
  have old: "foo_unit \<in> set (Units ?m1)" "foo_unit \<notin> set ?units"
    by (simp_all add: Units_candidate foo_unit_refreshed_def foo_unit_def bar_unit_def)
  note inst = valid_reingestion_supersedes
    [where further = no_unit_dropped and ?fetcher1.0 = "sample_fetcher [foo_unit]"
      and ?extractor1.0 = sample_extractor and k = sample_key and ?st0.0 = Map.empty
      and ?m1.0 = ?m1 and ?st1.0 = ?st1 and ?fetcher2.0 = "sample_fetcher ?units"
      and raw = ?units and ?extractor2.0 = sample_extractor and units = ?units
      and info = sample_info and ?m2.0 = ?m2]
  note main = inst [OF a b c d e, unfolded upd]
  from main have 1: "Ingest no_unit_dropped (sample_fetcher ?units) sample_extractor
       sample_key ?st1 = (Inr ?m2, [sample_key \<mapsto> ?m2])"
    by blast
  from main have 2: "visible [sample_key \<mapsto> ?m2] sample_key = set ?units"
    by blast
  from main old have 3: "foo_unit \<notin> visible [sample_key \<mapsto> ?m2] sample_key"
    by blast
  from main have get: "\<forall>u \<in> set ?units. distinct (map unit_path ?units) \<longrightarrow>
            GetUnit [sample_key \<mapsto> ?m2] sample_key (unit_path u) = Some u"
    by blast
  have 4: "GetUnit [sample_key \<mapsto> ?m2] sample_key ''example.com/module/foo'' =
      Some foo_unit_refreshed"
    using get paths(1,2) by (metis list.set_intros(1))
  have 5: "GetUnit [sample_key \<mapsto> ?m2] sample_key ''example.com/module/bar'' =
      Some bar_unit"
    using get paths(1,3) by (metis list.set_intros(1,2))
  from 1 2 3 4 5 show ?thesis by simp
qed

text \<open>
  C7. The rejection is signalled by the error value \<open>ValidationRejected\<close>, which differs
  from the fetch and the extraction failures (and from an unavailable store), so a caller
  tells them apart by comparing error kinds. An ingestion ends with \<open>ValidationRejected\<close>
  exactly when the fetch and the extraction succeeded and the store declined the
  candidate; a failed fetch ends with \<open>FetchFailed\<close> and a failed extraction with
  \<open>ExtractionFailed\<close>.
\<close>

theorem rejection_is_distinguished:
  "ValidationRejected \<noteq> FetchFailed \<and> ValidationRejected \<noteq> ExtractionFailed \<and>
   ValidationRejected \<noteq> StorageUnavailable \<and>
   (fst (Ingest further fetcher extractor k st) = Inl ValidationRejected \<longleftrightarrow>
      (\<exists>raw units info m prior.
          fetcher k = Some raw \<and> extractor raw = Some (units, info) \<and>
          PopulateModule info (candidate k units) = (None, m) \<and>
          st k = Some prior \<and> Units prior \<noteq> [] \<and>
          degenerate further k (Units prior) units)) \<and>
   (fetcher k = None \<longrightarrow> fst (Ingest further fetcher extractor k st) = Inl FetchFailed) \<and>
   (\<forall>raw. fetcher k = Some raw \<and> extractor raw = None \<longrightarrow>
      fst (Ingest further fetcher extractor k st) = Inl ExtractionFailed)"
proof -
  have units: "PopulateModule info (candidate k units) = (None, m) \<Longrightarrow> Units m = units"
    for info units and m :: StoredModule
    using PopulateModule_Units [of info "candidate k units"] by (simp add: candidate_def)
  have "fst (Ingest further fetcher extractor k st) = Inl ValidationRejected \<longleftrightarrow>
      (\<exists>raw units info m prior.
          fetcher k = Some raw \<and> extractor raw = Some (units, info) \<and>
          PopulateModule info (candidate k units) = (None, m) \<and>
          st k = Some prior \<and> Units prior \<noteq> [] \<and>
          degenerate further k (Units prior) units)" (is "?l \<longleftrightarrow> ?r")
  proof
    assume ?l
    then show ?r
      by (auto simp: Ingest_def split: option.splits prod.splits sum.splits
          dest!: Replace_Inl units)
  next
    assume ?r
    then obtain raw units info m prior where
      h: "fetcher k = Some raw" "extractor raw = Some (units, info)"
        "PopulateModule info (candidate k units) = (None, m)"
        "st k = Some prior" "Units prior \<noteq> []" "degenerate further k (Units prior) units"
      by blast
    have "Replace further k m st = (Inl ValidationRejected, st)"
      using h(4,5,6) units [OF h(3)] by (simp add: Replace_rejects)
    then show ?l
      using h(1,2,3) by (simp add: Ingest_def)
  qed
  then show ?thesis by (simp add: Ingest_def)
qed

theorem rejection_is_distinguished_witness:
  "fst (Ingest no_unit_dropped (sample_fetcher [foo_unit]) sample_extractor sample_key
          [sample_key \<mapsto> candidate sample_key [foo_unit, bar_unit]]) =
     Inl ValidationRejected \<and>
   fst (Ingest no_unit_dropped (\<lambda>k. None) sample_extractor sample_key
          [sample_key \<mapsto> candidate sample_key [foo_unit, bar_unit]]) =
     Inl FetchFailed \<and>
   fst (Ingest no_unit_dropped (sample_fetcher [foo_unit]) (\<lambda>raw. None) sample_key
          [sample_key \<mapsto> candidate sample_key [foo_unit, bar_unit]]) =
     Inl ExtractionFailed \<and>
   ValidationRejected \<noteq> FetchFailed \<and> ValidationRejected \<noteq> ExtractionFailed"
proof -
  let ?st = "[sample_key \<mapsto> candidate sample_key [foo_unit, bar_unit]]"
  have "\<exists>raw units info m prior.
          sample_fetcher [foo_unit] sample_key = Some raw \<and>
          sample_extractor raw = Some (units, info) \<and>
          PopulateModule info (candidate sample_key units) = (None, m) \<and>
          ?st sample_key = Some prior \<and> Units prior \<noteq> [] \<and>
          degenerate no_unit_dropped sample_key (Units prior) units"
    using sample_degenerate_shrunk
    by (simp add: sample_fetcher_def sample_extractor_def sample_analysis Units_candidate)
  then have 1: "fst (Ingest no_unit_dropped (sample_fetcher [foo_unit]) sample_extractor
      sample_key ?st) = Inl ValidationRejected"
    using rejection_is_distinguished
      [of no_unit_dropped "sample_fetcher [foo_unit]" sample_extractor sample_key ?st]
    by blast
  have 2: "fst (Ingest no_unit_dropped (\<lambda>k. None) sample_extractor sample_key ?st) =
      Inl FetchFailed"
    using rejection_is_distinguished
      [of no_unit_dropped "\<lambda>k. None :: UnitRecord list option" sample_extractor sample_key ?st]
    by simp
  have "sample_fetcher [foo_unit] sample_key = Some [foo_unit]"
    by (simp add: sample_fetcher_def)
  then have 3: "fst (Ingest no_unit_dropped (sample_fetcher [foo_unit]) (\<lambda>raw. None)
      sample_key ?st) = Inl ExtractionFailed"
    using rejection_is_distinguished
      [of no_unit_dropped "sample_fetcher [foo_unit]" "\<lambda>raw. None" sample_key ?st]
    by simp
  from 1 2 3 show ?thesis by simp
qed

end
